theory Spec2Isabelle
  imports Main
begin

section \<open>The musical language parser\<close>

text \<open>
  A shallow embedding of \<^verbatim>\<open>muscial_parser.py\<close>: the class
  \<^verbatim>\<open>MusicalLanguageParser\<close> with its grammar, its tokenizer and the methods
  \<^verbatim>\<open>parse\<close>, \<^verbatim>\<open>is_valid\<close> and \<^verbatim>\<open>generate_examples\<close>.
  The methods never assign to a field of \<^verbatim>\<open>self\<close>, so each of them is a function
  of the object and its arguments. What the methods print when \<^verbatim>\<open>debug\<close> is set
  is not part of the model.

  A Python \<^verbatim>\<open>str\<close> is modelled as a \<^typ>\<open>string\<close>; a character stands for the
  code point of the same number, so the texts covered are those over U+0000 to U+00FF.
\<close>

subsection \<open>Symbols, productions and trees\<close>

text \<open>
  A symbol of a production is a quoted terminal or the name of a nonterminal. A tree of
  \<^verbatim>\<open>nltk\<close> carries a label and a list of children, and its leaves are the
  tokens themselves.
\<close>

datatype 'n symbol = Terminal string | Nonterminal 'n

type_synonym 'n production = "'n \<times> 'n symbol list"

record 'n grammar =
  start :: 'n
  productions :: "'n production list"

datatype 'n tree = Leaf string | Node 'n "'n tree list"

datatype exn = Exception string

subsection \<open>The grammar of the source\<close>

text \<open>
  The nonterminals of \<^verbatim>\<open>grammar_str\<close> (lines 8 to 24), under their own names,
  and its productions in the order of the text. Every alternative between two bars is one
  production; the alternative after the last bar of the four \<^verbatim>\<open>_Prime\<close> lines
  is empty. The start symbol is the left-hand side of the first line.
\<close>

datatype nt =
    S | Composition | PhraseList | PhraseList_Prime | Phrase
  | NoteSequence | NoteSequence_Prime | Note | Pitch | Duration
  | ChordSequence | ChordSequence_Prime | Chord | PitchList | PitchList_Prime

definition musical_grammar :: "nt grammar" where
  "musical_grammar = \<lparr> start = S, productions = [
     (S, [Nonterminal Composition]),
     (Composition, [Nonterminal PhraseList]),
     (PhraseList, [Nonterminal Phrase, Nonterminal PhraseList_Prime]),
     (PhraseList_Prime, [Nonterminal Phrase, Nonterminal PhraseList_Prime]),
     (PhraseList_Prime, []),
     (Phrase, [Nonterminal NoteSequence]),
     (Phrase, [Nonterminal ChordSequence]),
     (NoteSequence, [Nonterminal Note, Nonterminal NoteSequence_Prime]),
     (NoteSequence_Prime, [Nonterminal Note, Nonterminal NoteSequence_Prime]),
     (NoteSequence_Prime, []),
     (Note, [Nonterminal Pitch, Nonterminal Duration]),
     (Pitch, [Terminal ''A'']),
     (Pitch, [Terminal ''B'']),
     (Pitch, [Terminal ''C'']),
     (Pitch, [Terminal ''D'']),
     (Pitch, [Terminal ''E'']),
     (Pitch, [Terminal ''F'']),
     (Pitch, [Terminal ''G'']),
     (Duration, [Terminal ''whole'']),
     (Duration, [Terminal ''half'']),
     (Duration, [Terminal ''quarter'']),
     (Duration, [Terminal ''eighth'']),
     (Duration, [Terminal ''sixteenth'']),
     (ChordSequence, [Nonterminal Chord, Nonterminal ChordSequence_Prime]),
     (ChordSequence_Prime, [Nonterminal Chord, Nonterminal ChordSequence_Prime]),
     (ChordSequence_Prime, []),
     (Chord, [Terminal ''('', Nonterminal PitchList, Terminal '')'', Nonterminal Duration]),
     (PitchList, [Nonterminal Pitch, Nonterminal PitchList_Prime]),
     (PitchList_Prime, [Nonterminal Pitch, Nonterminal PitchList_Prime]),
     (PitchList_Prime, [])] \<rparr>"

subsection \<open>The tokenizer\<close>

text \<open>
  \<^verbatim>\<open>str.isspace\<close> on the code points below 256: tab, line feed, vertical tab,
  form feed, carriage return, the four separators U+001C to U+001F, the space, U+0085
  and U+00A0.
\<close>

definition isspace :: "char \<Rightarrow> bool" where
  "isspace c = (of_char c \<in> {9, 10, 11, 12, 13, 28, 29, 30, 31, 32, 133, 160 :: nat})"

text \<open>\<^verbatim>\<open>text.replace(old, new)\<close> for a pattern of one character.\<close>

definition replace_char :: "char \<Rightarrow> string \<Rightarrow> string \<Rightarrow> string" where
  "replace_char old new text = concat (map (\<lambda>c. if c = old then new else [c]) text)"

text \<open>
  \<^verbatim>\<open>text.split()\<close> without arguments: runs of whitespace separate the words, and
  no empty word is returned. \<open>cur\<close> is the word read so far.
\<close>

fun split_ws :: "string \<Rightarrow> string \<Rightarrow> string list" where
  "split_ws cur [] = (if cur = [] then [] else [cur])"
| "split_ws cur (c # cs) =
     (if isspace c then (if cur = [] then split_ws [] cs else cur # split_ws [] cs)
      else split_ws (cur @ [c]) cs)"

definition split :: "string \<Rightarrow> string list" where
  "split text = split_ws [] text"

text \<open>\<^verbatim>\<open>token.strip()\<close>: whitespace removed at both ends.\<close>

definition strip :: "string \<Rightarrow> string" where
  "strip s = rev (dropWhile isspace (rev (dropWhile isspace s)))"

text \<open>
  \<^verbatim>\<open>tokenize\<close> (lines 35 to 53): both replacements, then the comprehension over
  the split text, which keeps the tokens whose \<^verbatim>\<open>strip()\<close> is not empty.
\<close>

definition tokenize :: "string \<Rightarrow> string list" where
  "tokenize text =
     (let text' = replace_char (CHR '')'') '' ) '' (replace_char (CHR ''('') '' ( '' text)
      in filter (\<lambda>token. strip token \<noteq> []) (split text'))"

text \<open>
  The tokenizer in the words of the specification, as a scanner: a parenthesis is a token
  of its own wherever it stands, whitespace separates tokens, every other character
  extends the current token unchanged, and no empty token is produced.
\<close>

definition flush :: "string \<Rightarrow> string list" where
  "flush cur = (if cur = [] then [] else [cur])"

fun scan :: "string \<Rightarrow> string \<Rightarrow> string list" where
  "scan cur [] = flush cur"
| "scan cur (c # cs) =
     (if c = CHR ''('' \<or> c = CHR '')'' then flush cur @ [c] # scan [] cs
      else if isspace c then flush cur @ scan [] cs
      else scan (cur @ [c]) cs)"

definition tokenize_spec :: "string \<Rightarrow> string list" where
  "tokenize_spec text = scan [] text"

subsection \<open>The chart parser\<close>

text \<open>
  Modelled from the spec: the chart parser engine and the tree extractor. The source
  calls \<^verbatim>\<open>nltk.ChartParser\<close>, whose code is not part of the repository; the
  definitions below follow sections 3, 4.3 and 4.4 of the specification: a bottom-up chart
  over the token positions, filled from an agenda until nothing new appears, and the
  exhaustive reconstruction of the trees of the start symbol over the whole input.

  An edge records a span, the symbol it produces, the children matched so far (each a
  symbol with its own span) and the symbols of the production still to be matched; it is
  complete when none is left. A token is a complete edge of its own terminal.
\<close>

type_synonym 'n constituent = "'n symbol \<times> nat \<times> nat"

datatype 'n edge =
  Edge (origin: nat) (finish: nat) (label: "'n symbol")
       (found: "'n constituent list") (rest: "'n symbol list")

definition complete :: "'n edge \<Rightarrow> bool" where
  "complete e = (rest e = [])"

text \<open>The edges every chart starts from: one per token, and one per empty production and position.\<close>

definition leaf_edges :: "string list \<Rightarrow> 'n edge list" where
  "leaf_edges tokens =
     map (\<lambda>(i, token). Edge i (Suc i) (Terminal token) [] []) (enumerate 0 tokens)"

definition empty_edges :: "'n grammar \<Rightarrow> string list \<Rightarrow> 'n edge list" where
  "empty_edges G tokens =
     concat (map (\<lambda>p. if snd p = []
                        then map (\<lambda>i. Edge i i (Nonterminal (fst p)) [] []) [0..<Suc (length tokens)]
                        else [])
                 (productions G))"

text \<open>
  A complete edge starts every production whose right-hand side begins with its symbol;
  terminals match by equality of strings.
\<close>

definition predict :: "'n grammar \<Rightarrow> 'n edge \<Rightarrow> 'n edge list" where
  "predict G e =
     concat (map (\<lambda>p. case snd p of
                          [] \<Rightarrow> []
                        | X # \<beta> \<Rightarrow>
                            if X = label e
                            then [Edge (origin e) (finish e) (Nonterminal (fst p))
                                       [(X, origin e, finish e)] \<beta>]
                            else [])
                 (productions G))"

text \<open>
  An edge \<open>a\<close> that waits for a symbol moves over a complete edge \<open>c\<close> of that
  symbol which starts where \<open>a\<close> ends. The result is a new edge.
\<close>

definition advance :: "'n edge \<Rightarrow> 'n edge \<Rightarrow> 'n edge list" where
  "advance a c =
     (case rest a of
        [] \<Rightarrow> []
      | X # \<beta> \<Rightarrow>
          if rest c = [] \<and> label c = X \<and> origin c = finish a
          then [Edge (origin a) (finish c) (label a) (found a @ [(X, origin c, finish c)]) \<beta>]
          else [])"

definition consequences :: "'n grammar \<Rightarrow> 'n edge \<Rightarrow> 'n edge list \<Rightarrow> 'n edge list" where
  "consequences G e chart =
     (if rest e = [] then predict G e @ concat (map (\<lambda>a. advance a e) chart)
      else concat (map (\<lambda>c. advance e c) chart))"

text \<open>
  The loop over the agenda. An edge that the chart already holds is dropped, so that every
  edge is entered once; the loop ends when the agenda is empty. \<open>None\<close> is the loop
  that does not end.
\<close>

partial_function (option) fill ::
  "'n grammar \<Rightarrow> 'n edge list \<Rightarrow> 'n edge list \<Rightarrow> 'n edge list option" where
  "fill G agenda chart =
     (case agenda of
        [] \<Rightarrow> Some chart
      | e # es \<Rightarrow>
          if e \<in> set chart then fill G es chart
          else fill G (es @ consequences G e (chart @ [e])) (chart @ [e]))"

declare fill.simps [code]

definition recognize :: "'n grammar \<Rightarrow> string list \<Rightarrow> 'n edge list option" where
  "recognize G tokens = fill G (leaf_edges tokens @ empty_edges G tokens) []"

text \<open>
  The trees of a constituent: a token is its own leaf; for a nonterminal, every complete
  edge of the chart with that symbol and span gives one node for every combination of the
  trees of its children. A constituent met again below itself gives no tree, so that the
  reconstruction is finite on every chart.
\<close>

definition keys :: "'n edge list \<Rightarrow> 'n constituent list" where
  "keys chart = map (\<lambda>e. (label e, origin e, finish e)) (filter complete chart)"

function build :: "'n edge list \<Rightarrow> 'n constituent list \<Rightarrow> 'n constituent \<Rightarrow> 'n tree list" where
  "build chart visited (X, i, j) =
     (case X of
        Terminal a \<Rightarrow> [Leaf a]
      | Nonterminal A \<Rightarrow>
          if (X, i, j) \<in> set visited then []
          else concat (map (\<lambda>e. map (Node A)
                                   (product_lists (map (build chart ((X, i, j) # visited)) (found e))))
                           (filter (\<lambda>e. complete e \<and> label e = X \<and> origin e = i \<and> finish e = j)
                                   chart)))"
  by pat_completeness auto
termination
proof (relation "measure (\<lambda>(chart, visited, c). card (set (keys chart) - set visited))", goal_cases)
  case 1
  then show ?case by simp
next
  case (2 chart visited X i j A e k)
  then have "(X, i, j) \<in> set (keys chart)"
    by (force simp: keys_def)
  with 2 have "(X, i, j) \<in> set (keys chart) - set visited"
    by simp
  then have "card (set (keys chart) - set ((X, i, j) # visited))
               < card (set (keys chart) - set visited)"
    by (metis Diff_insert card_Diff1_less finite_Diff finite_set list.simps(15))
  then show ?case by simp
qed

definition extractTrees :: "'n grammar \<Rightarrow> string list \<Rightarrow> 'n edge list \<Rightarrow> 'n tree list" where
  "extractTrees G tokens chart = build chart [] (Nonterminal (start G), 0, length tokens)"

definition chart_parse :: "'n grammar \<Rightarrow> string list \<Rightarrow> 'n tree list option" where
  "chart_parse G tokens = map_option (extractTrees G tokens) (recognize G tokens)"

subsection \<open>The parser object and its queries\<close>

text \<open>
  What a call of the library parser on a token list can do: not return (\<open>None\<close>),
  raise, or return its trees.
\<close>

type_synonym 'n parser_fn = "string list \<Rightarrow> (exn + 'n tree list) option"

definition ChartParser :: "'n grammar \<Rightarrow> 'n parser_fn" where
  "ChartParser G = (\<lambda>tokens. map_option Inr (chart_parse G tokens))"

record 'n MusicalLanguageParser =
  grammar :: "'n grammar"
  parser :: "'n parser_fn"
  debug :: bool

text \<open>\<^verbatim>\<open>__init__\<close> (lines 6 to 33).\<close>

definition init :: "bool \<Rightarrow> nt MusicalLanguageParser" where
  "init dbg = \<lparr> grammar = musical_grammar, parser = ChartParser musical_grammar, debug = dbg \<rparr>"

text \<open>
  \<^verbatim>\<open>parse\<close> (lines 55 to 75): the tokens are computed before the
  \<^verbatim>\<open>try\<close>; any exception of the library call is caught and answered by the
  empty list.
\<close>

definition parse :: "'n MusicalLanguageParser \<Rightarrow> string \<Rightarrow> 'n tree list option" where
  "parse self text =
     (let tokens = tokenize text
      in case parser self tokens of
           None \<Rightarrow> None
         | Some (Inl e) \<Rightarrow> Some []
         | Some (Inr trees) \<Rightarrow> Some trees)"

text \<open>\<^verbatim>\<open>is_valid\<close> (lines 77 to 88).\<close>

definition is_valid :: "'n MusicalLanguageParser \<Rightarrow> string \<Rightarrow> bool option" where
  "is_valid self text = map_option (\<lambda>trees. length trees > 0) (parse self text)"

subsection \<open>Calls that can change the objects\<close>

text \<open>
  To speak about calls in sequence, a call is a state transformer. The library parser is
  an object with a state of its own, which a call of its \<^verbatim>\<open>parse\<close> method may
  change; the method returns its outcome together with the parser after the call, or does
  not return.
\<close>

type_synonym ('n, 's) parse_method = "'s \<Rightarrow> string list \<Rightarrow> ((exn + 'n tree list) \<times> 's) option"

text \<open>
  Modelled from the spec: the chart parser as an object (section 3, ownership, and section
  5). Its grammar is built once and only read. The chart belongs to one invocation: the
  invocation starts it empty, keeps it until the trees are extracted and then discards it.
\<close>

record 'n chart_parser =
  cp_grammar :: "'n grammar"
  cp_chart :: "'n edge list"

definition ChartParser_parse :: "('n, 'n chart_parser) parse_method" where
  "ChartParser_parse cp tokens =
     (case fill (cp_grammar cp) (leaf_edges tokens @ empty_edges (cp_grammar cp) tokens) [] of
        None \<Rightarrow> None
      | Some chart \<Rightarrow>
          (let cp1 = cp\<lparr>cp_chart := chart\<rparr>;
               trees = extractTrees (cp_grammar cp1) tokens (cp_chart cp1)
           in Some (Inr trees, cp1\<lparr>cp_chart := []\<rparr>)))"

text \<open>
  The object of the source with the library parser in it: \<^verbatim>\<open>self.grammar\<close>,
  \<^verbatim>\<open>self.parser\<close> with the code of its \<^verbatim>\<open>parse\<close> method, and
  \<^verbatim>\<open>self.debug\<close>; and the object that \<^verbatim>\<open>__init__\<close> builds.
\<close>

record ('n, 's) parser_object =
  obj_grammar :: "'n grammar"
  obj_parser :: 's
  obj_parser_parse :: "('n, 's) parse_method"
  obj_debug :: bool

definition init_object :: "bool \<Rightarrow> (nt, nt chart_parser) parser_object" where
  "init_object dbg =
     \<lparr> obj_grammar = musical_grammar,
       obj_parser = \<lparr> cp_grammar = musical_grammar, cp_chart = [] \<rparr>,
       obj_parser_parse = ChartParser_parse,
       obj_debug = dbg \<rparr>"

text \<open>
  \<^verbatim>\<open>parse\<close> (lines 55 to 75) as a state transformer: the call of
  \<^verbatim>\<open>self.parser.parse(tokens)\<close> may change \<^verbatim>\<open>self.parser\<close>; the method
  itself assigns to no field.
\<close>

definition parse_call ::
  "('n, 's) parser_object \<Rightarrow> string \<Rightarrow> ('n tree list \<times> ('n, 's) parser_object) option" where
  "parse_call self text =
     (let tokens = tokenize text
      in case obj_parser_parse self (obj_parser self) tokens of
           None \<Rightarrow> None
         | Some (Inl e, p) \<Rightarrow> Some ([], self\<lparr>obj_parser := p\<rparr>)
         | Some (Inr trees, p) \<Rightarrow> Some (trees, self\<lparr>obj_parser := p\<rparr>))"

text \<open>A library parser that counts its calls and answers with as many leaves.\<close>

definition counting_parse :: "('n, nat) parse_method" where
  "counting_parse k tokens = Some (Inr (replicate k (Leaf ''x'')), Suc k)"

subsection \<open>Example generation\<close>

text \<open>
  What iterating over the library generator can do: end, yield a sentence and go on, or
  raise.
\<close>

datatype 'a iter = Stop | Yield 'a "'a iter" | Raise exn

type_synonym 'n generate_fn = "'n grammar \<Rightarrow> int \<Rightarrow> int \<Rightarrow> string list iter"

text \<open>\<^verbatim>\<open>' '.join(sentence)\<close>.\<close>

fun join :: "string \<Rightarrow> string list \<Rightarrow> string" where
  "join sep [] = []"
| "join sep [x] = x"
| "join sep (x # y # ys) = x @ sep @ join sep (y # ys)"

text \<open>
  The loop of lines 119 to 122: every sentence is appended, and the loop is left as soon
  as \<^verbatim>\<open>len(examples) >= n\<close>. An exception leaves the loop to the handler.
\<close>

fun collect :: "int \<Rightarrow> string list \<Rightarrow> string list iter \<Rightarrow> exn + string list" where
  "collect n examples Stop = Inr examples"
| "collect n examples (Raise e) = Inl e"
| "collect n examples (Yield sentence it) =
     (let examples' = examples @ [join '' '' sentence]
      in if int (length examples') \<ge> n then Inr examples' else collect n examples' it)"

definition manual_examples :: "string list" where
  "manual_examples =
     [''C quarter'', ''A whole B half'', ''C quarter D half E whole'',
      ''( C E G ) whole'', ''C quarter ( D F A ) half'']"

text \<open>
  \<^verbatim>\<open>generate_examples\<close> (lines 105 to 133), over the generator of the library,
  called as \<^verbatim>\<open>generate(self.grammar, depth=depth, n=n)\<close>.
\<close>

definition generate_examples ::
  "'n generate_fn \<Rightarrow> 'n MusicalLanguageParser \<Rightarrow> int \<Rightarrow> int \<Rightarrow> string list" where
  "generate_examples generate self n depth =
     (case collect n [] (generate (grammar self) depth n) of
        Inl e \<Rightarrow> manual_examples
      | Inr examples \<Rightarrow> examples)"

text \<open>
  Modelled from the spec: the generator of the library, \<^verbatim>\<open>nltk.parse.generate\<close>,
  which is not part of the repository. Section 4.5: the sentences derivable from the start
  symbol by depth-first expansion of the productions, in their order, bounded by the
  recursion depth, and at most \<open>n\<close> of them. It does not raise.
\<close>

fun expand_one :: "'n grammar \<Rightarrow> nat \<Rightarrow> 'n symbol \<Rightarrow> string list list"
  and expand_all :: "'n grammar \<Rightarrow> nat \<Rightarrow> 'n symbol list \<Rightarrow> string list list" where
  "expand_one G 0 X = []"
| "expand_one G (Suc d) (Terminal a) = [[a]]"
| "expand_one G (Suc d) (Nonterminal A) =
     concat (map (\<lambda>p. expand_all G d (snd p)) (filter (\<lambda>p. fst p = A) (productions G)))"
| "expand_all G d [] = [[]]"
| "expand_all G d (X # Xs) =
     concat (map (\<lambda>front. map (\<lambda>back. front @ back) (expand_all G d Xs)) (expand_one G d X))"

fun to_iter :: "'a list \<Rightarrow> 'a iter" where
  "to_iter [] = Stop"
| "to_iter (x # xs) = Yield x (to_iter xs)"

definition generate_spec :: "'n generate_fn" where
  "generate_spec G depth n =
     to_iter (take (nat n) (expand_all G (nat depth) [Nonterminal (start G)]))"

subsection \<open>The edges a chart can hold\<close>

text \<open>
  The edges over a grammar and a token list: positions within the input, a label that is
  a token or a left-hand side, children and remaining symbols taken from the right-hand
  sides, and no more of them than the right-hand sides are long.
\<close>

definition rhs_symbols :: "'n grammar \<Rightarrow> 'n symbol set" where
  "rhs_symbols G = (\<Union>p \<in> set (productions G). set (snd p))"

definition rhs_bound :: "'n grammar \<Rightarrow> nat" where
  "rhs_bound G = sum_list (map (\<lambda>p. length (snd p)) (productions G))"

definition labels :: "'n grammar \<Rightarrow> string list \<Rightarrow> 'n symbol set" where
  "labels G tokens = Terminal ` set tokens \<union> Nonterminal ` fst ` set (productions G)"

definition edge_ok :: "'n grammar \<Rightarrow> string list \<Rightarrow> 'n edge \<Rightarrow> bool" where
  "edge_ok G tokens e \<longleftrightarrow>
     origin e \<le> length tokens \<and> finish e \<le> length tokens \<and> label e \<in> labels G tokens \<and>
     set (found e) \<subseteq> rhs_symbols G \<times> {..length tokens} \<times> {..length tokens} \<and>
     set (rest e) \<subseteq> rhs_symbols G \<and>
     length (found e) + length (rest e) \<le> rhs_bound G"

subsection \<open>Reading a tree\<close>












subsection \<open>A library that raises\<close>

text \<open>
  A parser object whose library parser raises on every token list, and a generator that
  raises at once: the calls for which the handlers of \<^verbatim>\<open>parse\<close> and
  \<^verbatim>\<open>generate_examples\<close> are written.
\<close>

definition raising_parser :: "exn \<Rightarrow> nt MusicalLanguageParser" where
  "raising_parser e = \<lparr> grammar = musical_grammar, parser = (\<lambda>tokens. Some (Inl e)), debug = False \<rparr>"

definition raising_generate :: "exn \<Rightarrow> nt generate_fn" where
  "raising_generate e = (\<lambda>G depth n. Raise e)"

section \<open>Termination of the chart parser\<close>

text \<open>
  There are finitely many edges over a grammar and a token list, every edge the loop
  derives is one of them, and the loop enters no edge twice.
\<close>

lemma finite_rhs_symbols: "finite (rhs_symbols G)"
  by (simp add: rhs_symbols_def)

lemma finite_labels: "finite (labels G tokens)"
  by (simp add: labels_def)

lemma rhs_le_bound: "p \<in> set (productions G) \<Longrightarrow> length (snd p) \<le> rhs_bound G"
  unfolding rhs_bound_def by (induction "productions G" arbitrary: G) (auto simp: member_le_sum_list)

lemma finite_edge_ok: "finite {e. edge_ok G tokens e}"
proof -
  let ?n = "length tokens"
  let ?K = "rhs_symbols G \<times> {..?n} \<times> {..?n}"
  let ?F = "{f. set f \<subseteq> ?K \<and> length f \<le> rhs_bound G}"
  let ?R = "{r. set r \<subseteq> rhs_symbols G \<and> length r \<le> rhs_bound G}"
  let ?P = "{..?n} \<times> {..?n} \<times> labels G tokens \<times> ?F \<times> ?R"
  have "finite ?K" by (simp add: finite_rhs_symbols)
  then have "finite ?F" by (rule finite_lists_length_le)
  moreover have "finite ?R" using finite_rhs_symbols by (rule finite_lists_length_le)
  ultimately have "finite ?P" by (simp add: finite_labels)
  then have "finite ((\<lambda>(i, j, X, f, r). Edge i j X f r) ` ?P)" by (rule finite_imageI)
  moreover have "{e. edge_ok G tokens e} \<subseteq> (\<lambda>(i, j, X, f, r). Edge i j X f r) ` ?P"
  proof
    fix e assume "e \<in> {e. edge_ok G tokens e}"
    then have ok: "edge_ok G tokens e" by simp
    then have "(origin e, finish e, label e, found e, rest e) \<in> ?P"
      by (simp add: edge_ok_def)
    then have "(\<lambda>(i, j, X, f, r). Edge i j X f r) (origin e, finish e, label e, found e, rest e)
                 \<in> (\<lambda>(i, j, X, f, r). Edge i j X f r) ` ?P"
      by (rule imageI)
    then show "e \<in> (\<lambda>(i, j, X, f, r). Edge i j X f r) ` ?P" by simp
  qed
  ultimately show ?thesis by (rule rev_finite_subset)
qed

lemma predict_ok:
  assumes "edge_ok G tokens e" and "e' \<in> set (predict G e)"
  shows "edge_ok G tokens e'"
proof -
  from assms(2) obtain p X \<beta> where p: "p \<in> set (productions G)" and rhs: "snd p = X # \<beta>"
    and e': "e' = Edge (origin e) (finish e) (Nonterminal (fst p)) [(X, origin e, finish e)] \<beta>"
    by (auto simp: predict_def split: list.splits if_splits)
  from p rhs have "X \<in> rhs_symbols G" and "set \<beta> \<subseteq> rhs_symbols G"
    by (force simp: rhs_symbols_def)+
  moreover from rhs_le_bound[OF p] rhs have "Suc (length \<beta>) \<le> rhs_bound G" by simp
  moreover from p have "Nonterminal (fst p) \<in> labels G tokens" by (simp add: labels_def)
  ultimately show ?thesis using assms(1) by (simp add: e' edge_ok_def)
qed

lemma advance_ok:
  assumes "edge_ok G tokens a" and "edge_ok G tokens c" and "e' \<in> set (advance a c)"
  shows "edge_ok G tokens e'"
proof (cases "rest a")
  case Nil
  with assms(3) show ?thesis by (simp add: advance_def)
next
  case (Cons X \<beta>)
  with assms(3) have e': "e' = Edge (origin a) (finish c) (label a) (found a @ [(X, origin c, finish c)]) \<beta>"
    by (simp add: advance_def split: if_splits)
  show ?thesis using assms(1,2) Cons by (auto simp: e' edge_ok_def)
qed

lemma consequences_ok:
  assumes "edge_ok G tokens e" and "\<forall>x \<in> set chart. edge_ok G tokens x"
    and "e' \<in> set (consequences G e chart)"
  shows "edge_ok G tokens e'"
  using assms by (auto simp: consequences_def split: if_splits intro: predict_ok advance_ok)

lemma fill_returns:
  assumes "\<forall>x \<in> set agenda. edge_ok G tokens x" and "\<forall>x \<in> set chart. edge_ok G tokens x"
  shows "\<exists>chart'. fill G agenda chart = Some chart'"
  using assms
proof (induction "card ({e. edge_ok G tokens e} - set chart)" arbitrary: agenda chart rule: less_induct)
  case less
  from less.prems(1) show ?case
  proof (induction agenda)
    case Nil
    show ?case by (subst fill.simps) simp
  next
    case (Cons e es)
    show ?case
    proof (cases "e \<in> set chart")
      case True
      from Cons have "\<exists>chart'. fill G es chart = Some chart'" by simp
      with True show ?thesis by (subst fill.simps) simp
    next
      case False
      let ?chart = "chart @ [e]"
      from Cons.prems have e: "edge_ok G tokens e" by simp
      with less.prems(2) have chart: "\<forall>x \<in> set ?chart. edge_ok G tokens x" by simp
      have "edge_ok G tokens x" if "x \<in> set (consequences G e ?chart)" for x
        using e chart that by (rule consequences_ok)
      with Cons.prems have agenda: "\<forall>x \<in> set (es @ consequences G e ?chart). edge_ok G tokens x"
        by auto
      let ?U = "{e. edge_ok G tokens e} - set chart"
      from e False have "e \<in> ?U" by simp
      moreover have "finite ?U" using finite_edge_ok[of G tokens] by simp
      ultimately have "card (?U - {e}) < card ?U" by (rule card_Diff1_less[rotated])
      moreover have "{e. edge_ok G tokens e} - set ?chart = ?U - {e}" by auto
      ultimately have "card ({e. edge_ok G tokens e} - set ?chart) < card ({e. edge_ok G tokens e} - set chart)"
        by simp
      from less.hyps[OF this agenda chart]
      have "\<exists>chart'. fill G (es @ consequences G e ?chart) ?chart = Some chart'" .
      with False show ?thesis by (subst fill.simps) simp
    qed
  qed
qed

lemma leaf_edges_ok: "e \<in> set (leaf_edges tokens) \<Longrightarrow> edge_ok G tokens e"
  by (auto simp: leaf_edges_def edge_ok_def labels_def in_set_enumerate_eq)

lemma empty_edges_ok:
  assumes "e \<in> set (empty_edges G tokens)"
  shows "edge_ok G tokens e"
proof -
  from assms obtain p i where p: "p \<in> set (productions G)" and i: "i \<le> length tokens"
    and e: "e = Edge i i (Nonterminal (fst p)) [] []"
    by (auto simp: empty_edges_def split: if_splits)
  from p have "Nonterminal (fst p) \<in> labels G tokens" by (simp add: labels_def)
  with i show ?thesis by (simp add: e edge_ok_def)
qed

lemma recognize_returns: "\<exists>chart. recognize G tokens = Some chart"
  unfolding recognize_def by (rule fill_returns[where tokens = tokens]) (auto intro: leaf_edges_ok empty_edges_ok)

lemma chart_parse_returns: "\<exists>trees. chart_parse G tokens = Some trees"
  using recognize_returns[of G tokens] by (auto simp: chart_parse_def)


lemma ChartParser_returns: "\<exists>trees. ChartParser G tokens = Some (Inr trees)"
  using chart_parse_returns[of G tokens] by (auto simp: ChartParser_def)

text \<open>
  C7: with the grammar of the source, whose four \<open>_Prime\<close> nonterminals have an empty
  production and a production that mentions themselves, the parser returns on every token
  list: the chart is completed and the trees are read off. So does \<open>parse\<close> on every text.
\<close>

theorem parsing_terminates:
  "(\<exists>trees. ChartParser musical_grammar tokens = Some (Inr trees)) \<and>
   (\<exists>trees. parse (init dbg) text = Some trees)"
proof
  show "\<exists>trees. ChartParser musical_grammar tokens = Some (Inr trees)"
    by (rule ChartParser_returns)
  from ChartParser_returns[of musical_grammar "tokenize text"]
  show "\<exists>trees. parse (init dbg) text = Some trees"
    by (auto simp: parse_def init_def)
qed

section \<open>The tokenizer is the scanner\<close>

text \<open>
  After both replacements every parenthesis stands between two spaces, so splitting at
  whitespace reads the text as the scanner does; and since no word of the split holds
  whitespace, the filter of the comprehension removes nothing.
\<close>

lemma isspace_space: "isspace (CHR '' '')"
  by (simp add: isspace_def)

lemma not_isspace_paren: "\<not> isspace (CHR ''('')" "\<not> isspace (CHR '')'')"
  by (simp_all add: isspace_def)

lemma replace_char_Nil: "replace_char old new [] = []"
  by (simp add: replace_char_def)

lemma replace_char_Cons:
  "replace_char old new (c # cs) = (if c = old then new else [c]) @ replace_char old new cs"
  by (simp add: replace_char_def)

lemma replace_char_append:
  "replace_char old new (xs @ ys) = replace_char old new xs @ replace_char old new ys"
  by (simp add: replace_char_def)

lemma split_ws_flush: "split_ws cur (CHR '' '' # cs) = flush cur @ split_ws [] cs"
  by (simp add: isspace_space flush_def)

lemma split_ws_spaced:
  "split_ws cur (replace_char (CHR '')'') '' ) '' (replace_char (CHR ''('') '' ( '' cs)) = scan cur cs"
proof (induction cs arbitrary: cur)
  case Nil
  show ?case by (simp add: replace_char_Nil flush_def)
next
  case (Cons c cs)
  show ?case
  proof (cases "c = CHR ''(''")
    case True
    then show ?thesis
      using Cons[of "[]"]
      by (simp add: replace_char_Cons isspace_space not_isspace_paren flush_def)
  next
    case open_no: False
    show ?thesis
    proof (cases "c = CHR '')''")
      case True
      then show ?thesis
        using Cons[of "[]"]
        by (simp add: replace_char_Cons isspace_space not_isspace_paren flush_def)
    next
      case False
      with open_no show ?thesis
        using Cons[of "[]"] Cons[of "cur @ [c]"]
        by (simp add: replace_char_Cons flush_def)
    qed
  qed
qed

lemma scan_tokens:
  "\<forall>c \<in> set cur. \<not> isspace c \<Longrightarrow>
   \<forall>t \<in> set (scan cur cs). t \<noteq> [] \<and> (\<forall>c \<in> set t. \<not> isspace c)"
proof (induction cs arbitrary: cur)
  case Nil
  then show ?case by (simp add: flush_def)
next
  case (Cons c cs)
  from Cons.IH[of "[]"] have nil: "\<forall>t \<in> set (scan [] cs). t \<noteq> [] \<and> (\<forall>c \<in> set t. \<not> isspace c)"
    by simp
  show ?case
  proof (cases "c = CHR ''('' \<or> c = CHR '')'' \<or> isspace c")
    case True
    with nil Cons.prems show ?thesis by (auto simp: flush_def not_isspace_paren)
  next
    case False
    with Cons.prems have "\<forall>x \<in> set (cur @ [c]). \<not> isspace x" by auto
    from Cons.IH[OF this] False show ?thesis by simp
  qed
qed

lemma dropWhile_no_space: "\<forall>c \<in> set xs. \<not> isspace c \<Longrightarrow> dropWhile isspace xs = xs"
  by (cases xs) auto

lemma strip_no_space:
  assumes "\<forall>c \<in> set t. \<not> isspace c"
  shows "strip t = t"
  using assms dropWhile_no_space[of t] dropWhile_no_space[of "rev t"] by (simp add: strip_def)

lemma tokenize_scan: "tokenize text = scan [] text"
proof -
  have "strip t \<noteq> []" if "t \<in> set (scan [] text)" for t
    using scan_tokens[of "[]" "text"] that strip_no_space[of t] by auto
  then have "filter (\<lambda>token. strip token \<noteq> []) (scan [] text) = scan [] text"
    by (simp add: filter_id_conv)
  then show ?thesis
    by (simp add: tokenize_def split_def split_ws_spaced)
qed

lemma concat_scan:
  "\<forall>c \<in> set cur. \<not> isspace c \<Longrightarrow> concat (scan cur cs) = cur @ filter (\<lambda>c. \<not> isspace c) cs"
  by (induction cs arbitrary: cur) (auto simp: flush_def not_isspace_paren)

lemma scan_parens:
  "CHR ''('' \<notin> set cur \<Longrightarrow> CHR '')'' \<notin> set cur \<Longrightarrow>
   \<forall>t \<in> set (scan cur cs). (CHR ''('' \<in> set t \<or> CHR '')'' \<in> set t) \<longrightarrow> t = ''('' \<or> t = '')''"
proof (induction cs arbitrary: cur)
  case Nil
  then show ?case by (simp add: flush_def)
next
  case (Cons c cs)
  from Cons.IH[of "[]"] have nil: "\<forall>t \<in> set (scan [] cs). (CHR ''('' \<in> set t \<or> CHR '')'' \<in> set t) \<longrightarrow> t = ''('' \<or> t = '')''"
    by simp
  show ?case
  proof (cases "c = CHR ''('' \<or> c = CHR '')'' \<or> isspace c")
    case True
    with nil Cons.prems show ?thesis by (auto simp: flush_def)
  next
    case False
    with Cons.prems have "CHR ''('' \<notin> set (cur @ [c])" "CHR '')'' \<notin> set (cur @ [c])" by auto
    from Cons.IH[OF this] False show ?thesis by simp
  qed
qed

lemma scan_blank: "\<forall>c \<in> set cs. isspace c \<Longrightarrow> scan [] cs = []"
  by (induction cs) (auto simp: flush_def not_isspace_paren)

lemma tokenize_example: "tokenize ''(C E G)whole'' = [''('', ''C'', ''E'', ''G'', '')'', ''whole'']"
  by (simp add: tokenize_scan flush_def isspace_def)

section \<open>The parser on the example sentences\<close>

text \<open>
  The tokens of the sentences of the end-to-end scenarios, and the trees the chart parser
  returns for them, computed from the definitions.
\<close>

lemma parse_init: "parse (init dbg) text = chart_parse musical_grammar (tokenize text)"
  by (cases "chart_parse musical_grammar (tokenize text)") (simp_all add: parse_def init_def ChartParser_def)

lemma tokens_two_notes: "tokenize ''C quarter D half'' = [''C'', ''quarter'', ''D'', ''half'']"
  by (simp add: tokenize_scan flush_def isspace_def)


lemma tokens_quarter_C: "tokenize ''quarter C'' = [''quarter'', ''C'']"
  by (simp add: tokenize_scan flush_def isspace_def)

lemma tokens_open_chord: "tokenize ''( C E G'' = [''('', ''C'', ''E'', ''G'']"
  by (simp add: tokenize_scan flush_def isspace_def)

lemma tokens_H_quarter: "tokenize ''H quarter'' = [''H'', ''quarter'']"
  by (simp add: tokenize_scan flush_def isspace_def)

lemma trees_quarter_C: "chart_parse musical_grammar [''quarter'', ''C''] = Some []"
  by code_simp

lemma trees_H_quarter: "chart_parse musical_grammar [''H'', ''quarter''] = Some []"
  by code_simp

lemma trees_open_chord: "chart_parse musical_grammar [''('', ''C'', ''E'', ''G''] = Some []"
  by code_simp


lemma chart_parse_Nil: "chart_parse musical_grammar [] = Some []"
  by code_simp

lemma trees_two_notes: "chart_parse musical_grammar [''C'', ''quarter'', ''D'', ''half''] =
  Some [Node S [Node Composition [Node PhraseList
          [Node Phrase [Node NoteSequence
             [Node Note [Node Pitch [Leaf ''C''], Node Duration [Leaf ''quarter'']],
              Node NoteSequence_Prime []]],
           Node PhraseList_Prime
             [Node Phrase [Node NoteSequence
                [Node Note [Node Pitch [Leaf ''D''], Node Duration [Leaf ''half'']],
                 Node NoteSequence_Prime []]],
              Node PhraseList_Prime []]]]],
        Node S [Node Composition [Node PhraseList
          [Node Phrase [Node NoteSequence
             [Node Note [Node Pitch [Leaf ''C''], Node Duration [Leaf ''quarter'']],
              Node NoteSequence_Prime
                [Node Note [Node Pitch [Leaf ''D''], Node Duration [Leaf ''half'']],
                 Node NoteSequence_Prime []]]],
           Node PhraseList_Prime []]]]]"
  by code_simp

section \<open>Calls in sequence\<close>

text \<open>
  The outcome of a call of the chart parser depends on its grammar and the tokens only,
  whatever chart the object held before, and the call leaves the grammar as it was. On the
  object of \<^verbatim>\<open>__init__\<close> the state transformer returns the trees of \<open>parse\<close>.
  A parser that counts its calls shows that this is a property of the chart parser, not of
  every library parser.
\<close>

lemma ChartParser_parse_eq:
  "ChartParser_parse cp tokens =
     map_option (\<lambda>trees. (Inr trees, cp\<lparr>cp_chart := []\<rparr>)) (chart_parse (cp_grammar cp) tokens)"
  by (simp add: ChartParser_parse_def chart_parse_def recognize_def split: option.splits)

lemma parse_call_ChartParser:
  assumes "obj_parser_parse self = ChartParser_parse"
  shows "parse_call self text =
     map_option (\<lambda>trees. (trees, self\<lparr>obj_parser := (obj_parser self)\<lparr>cp_chart := []\<rparr>\<rparr>))
       (chart_parse (cp_grammar (obj_parser self)) (tokenize text))"
  using assms by (simp add: parse_call_def ChartParser_parse_eq split: option.splits)

lemma parse_call_init:
  "parse_call (init_object dbg) text = map_option (\<lambda>trees. (trees, init_object dbg)) (parse (init dbg) text)"
proof -
  have "obj_parser_parse (init_object dbg) = ChartParser_parse"
    by (simp add: init_object_def)
  from parse_call_ChartParser[OF this, of "text"] show ?thesis
    by (simp add: parse_init init_object_def)
qed

lemma counting_not_repeatable:
  "parse_call \<lparr> obj_grammar = musical_grammar, obj_parser = 0,
                 obj_parser_parse = counting_parse, obj_debug = False \<rparr> ''C quarter''
     = Some ([], \<lparr> obj_grammar = musical_grammar, obj_parser = Suc 0,
                     obj_parser_parse = counting_parse, obj_debug = False \<rparr>) \<and>
   parse_call \<lparr> obj_grammar = musical_grammar, obj_parser = Suc 0,
                 obj_parser_parse = counting_parse, obj_debug = False \<rparr> ''C quarter''
     = Some ([Leaf ''x''], \<lparr> obj_grammar = musical_grammar, obj_parser = Suc (Suc 0),
                     obj_parser_parse = counting_parse, obj_debug = False \<rparr>)"
  by (simp add: parse_call_def counting_parse_def)

section \<open>The claims\<close>

text \<open>
  C1: \<open>is_valid\<close> returns true exactly when \<open>parse\<close> returns a list that is not
  empty; it returns false exactly when \<open>parse\<close> returns the empty list, and it returns
  whenever \<open>parse\<close> does. This holds for every parser object and text.
\<close>

theorem is_valid_iff_parse_nonempty:
  "(is_valid self text = Some True \<longleftrightarrow> (\<exists>trees. parse self text = Some trees \<and> trees \<noteq> [])) \<and>
   (is_valid self text = Some False \<longleftrightarrow> parse self text = Some []) \<and>
   (is_valid self text = None \<longleftrightarrow> parse self text = None)"
  by (cases "parse self text") (auto simp: is_valid_def)

text \<open>
  C2: when the library parser raises on the tokens of the text, \<open>parse\<close> returns the
  empty list; the exception does not reach the caller.
\<close>

theorem parse_fails_soft:
  "parser self (tokenize text) = Some (Inl e) \<Longrightarrow> parse self text = Some []"
  by (simp add: parse_def)

theorem parse_fails_soft_witness:
  "parser (raising_parser (Exception ''ValueError'')) (tokenize ''H quarter'')
     = Some (Inl (Exception ''ValueError'')) \<and>
   parse (raising_parser (Exception ''ValueError'')) ''H quarter'' = Some []"
proof -
  have h: "parser (raising_parser (Exception ''ValueError'')) (tokenize ''H quarter'')
     = Some (Inl (Exception ''ValueError''))"
    by (simp add: raising_parser_def)
  from h parse_fails_soft[OF h] show ?thesis by simp
qed

text \<open>
  C3: the text \<^verbatim>\<open>C quarter D half\<close> is valid, but \<open>parse\<close> returns two trees
  for it, not one: the two notes are one phrase of two notes, or two phrases of one note
  each. The grammar lets a \<open>PhraseList\<close> repeat phrases and a \<open>NoteSequence\<close>
  repeat notes, so it is ambiguous, against the comment on line 7 of the source.
\<close>

theorem two_notes_two_trees:
  "map_option length (parse (init dbg) ''C quarter D half'') = Some 2 \<and>
   is_valid (init dbg) ''C quarter D half'' = Some True"
  by (simp add: is_valid_def parse_init tokens_two_notes trees_two_notes)



text \<open>
  C6: for \<^verbatim>\<open>quarter C\<close>, \<^verbatim>\<open>( C E G\<close> and \<^verbatim>\<open>H quarter\<close>,
  \<open>parse\<close> returns the empty list (a result, not an error) and \<open>is_valid\<close> returns
  false.
\<close>

theorem invalid_inputs_empty:
  "parse (init dbg) ''quarter C'' = Some [] \<and>
   parse (init dbg) ''( C E G'' = Some [] \<and>
   parse (init dbg) ''H quarter'' = Some [] \<and>
   is_valid (init dbg) ''quarter C'' = Some False \<and>
   is_valid (init dbg) ''( C E G'' = Some False \<and>
   is_valid (init dbg) ''H quarter'' = Some False"
  by (simp add: is_valid_def parse_init tokens_quarter_C tokens_open_chord tokens_H_quarter
        trees_quarter_C trees_open_chord trees_H_quarter)

text \<open>
  C8, as stated: with the default count 10 and depth 1 the generator produces no sentence
  and raises nothing, and \<open>generate_examples\<close> returns the empty list, not the built-in
  examples.
\<close>

theorem generate_examples_no_fallback:
  "generate_examples generate_spec (init False) 10 1 = [] \<and> manual_examples \<noteq> []"
  by (simp add: generate_examples_def generate_spec_def init_def musical_grammar_def manual_examples_def)

text \<open>
  C8, amended: for every count and depth, \<open>generate_examples\<close> returns the built-in
  examples when the generation raises an exception before the loop is left; when the
  generator ends at once without a sentence, the result is the empty list.
\<close>

theorem generate_examples_fallback:
  "(collect n [] (generate (grammar self) depth n) = Inl e \<longrightarrow>
      generate_examples generate self n depth = manual_examples) \<and>
   (generate (grammar self) depth n = Stop \<longrightarrow> generate_examples generate self n depth = [])"
  by (simp add: generate_examples_def)

theorem generate_examples_fallback_witness:
  "collect 10 [] (raising_generate (Exception ''RuntimeError'') (grammar (init False)) 5 10)
     = Inl (Exception ''RuntimeError'') \<and>
   generate_examples (raising_generate (Exception ''RuntimeError'')) (init False) 10 5 = manual_examples \<and>
   generate_spec (grammar (init False)) 1 10 = Stop \<and>
   generate_examples generate_spec (init False) 10 1 = []"
proof -
  have a: "collect 10 [] (raising_generate (Exception ''RuntimeError'') (grammar (init False)) 5 10)
     = Inl (Exception ''RuntimeError'')"
    by (simp add: raising_generate_def)
  have b: "generate_spec (grammar (init False)) 1 10 = Stop"
    by (simp add: generate_spec_def init_def musical_grammar_def)
  from a b
    generate_examples_fallback[of 10 "raising_generate (Exception ''RuntimeError'')" "init False" 5
       "Exception ''RuntimeError''"]
    generate_examples_fallback[of 10 generate_spec "init False" 1]
  show ?thesis by simp
qed



text \<open>
  C4: on every text \<open>tokenize\<close> returns what the scanner of the specification returns:
  parentheses alone, the other tokens cut at whitespace; the tokens put together are the
  text without its whitespace, so no character is changed; a token that holds a
  parenthesis is that parenthesis; and \<^verbatim>\<open>(C E G)whole\<close> gives the six tokens of
  the specification.
\<close>

theorem tokenize_isolates_parens:
  "tokenize text = tokenize_spec text \<and>
   concat (tokenize text) = filter (\<lambda>c. \<not> isspace c) text \<and>
   (\<forall>t \<in> set (tokenize text). (CHR ''('' \<in> set t \<or> CHR '')'' \<in> set t) \<longrightarrow> t = ''('' \<or> t = '')'') \<and>
   tokenize ''(C E G)whole'' = [''('', ''C'', ''E'', ''G'', '')'', ''whole'']"
proof (intro conjI)
  show "tokenize text = tokenize_spec text"
    by (simp only: tokenize_scan tokenize_spec_def)
  show "concat (tokenize text) = filter (\<lambda>c. \<not> isspace c) text"
    by (simp add: tokenize_scan concat_scan)
  show "\<forall>t \<in> set (tokenize text). (CHR ''('' \<in> set t \<or> CHR '')'' \<in> set t) \<longrightarrow> t = ''('' \<or> t = '')''"
    unfolding tokenize_scan by (rule scan_parens) simp_all
  show "tokenize ''(C E G)whole'' = [''('', ''C'', ''E'', ''G'', '')'', ''whole'']"
    by (rule tokenize_example)
qed

theorem tokenize_isolates_parens_witness:
  "''('' \<in> set (tokenize ''(C E G)whole'') \<and> CHR ''('' \<in> set ''('' \<and>
   (''('' = ''('' \<or> ''('' = '')'') \<and>
   tokenize_spec ''(C E G)whole'' = [''('', ''C'', ''E'', ''G'', '')'', ''whole'']"
proof -
  note t = tokenize_isolates_parens[of "''(C E G)whole''"]
  from t have a: "tokenize ''(C E G)whole'' = [''('', ''C'', ''E'', ''G'', '')'', ''whole'']"
    by (elim conjE)
  from t have b: "tokenize ''(C E G)whole'' = tokenize_spec ''(C E G)whole''"
    by (elim conjE)
  have "''('' \<in> set (tokenize ''(C E G)whole'')"
    by (simp add: a)
  moreover have "tokenize_spec ''(C E G)whole'' = [''('', ''C'', ''E'', ''G'', '')'', ''whole'']"
    using a b by simp
  ultimately show ?thesis by simp
qed

text \<open>
  C10: every token that \<open>tokenize\<close> returns is a non-empty string without whitespace;
  a text of whitespace only, the empty text included, has no tokens, \<open>parse\<close> returns
  the empty list for it and \<open>is_valid\<close> returns false.
\<close>

theorem tokens_nonempty_no_space:
  "(\<forall>t \<in> set (tokenize text). t \<noteq> [] \<and> (\<forall>c \<in> set t. \<not> isspace c)) \<and>
   ((\<forall>c \<in> set text. isspace c) \<longrightarrow>
      tokenize text = [] \<and> parse (init dbg) text = Some [] \<and> is_valid (init dbg) text = Some False)"
  using scan_tokens[of "[]" "text"] scan_blank[of "text"]
  by (auto simp: tokenize_scan parse_init chart_parse_Nil is_valid_def)

theorem tokens_nonempty_no_space_witness:
  "''('' \<in> set (tokenize ''(C E G)whole'') \<and> ''('' \<noteq> [] \<and> \<not> isspace (CHR ''('') \<and>
   isspace (CHR '' '') \<and> tokenize ''  '' = [] \<and>
   parse (init False) ''  '' = Some [] \<and> is_valid (init False) ''  '' = Some False"
proof -
  have s: "isspace (CHR '' '')"
    by (rule isspace_space)
  have a: "''('' \<in> set (tokenize ''(C E G)whole'')"
    by (simp add: tokenize_example)
  have "\<forall>t \<in> set (tokenize ''(C E G)whole''). t \<noteq> [] \<and> (\<forall>c \<in> set t. \<not> isspace c)"
    using tokens_nonempty_no_space[of "''(C E G)whole''" False] by (rule conjunct1)
  from bspec[OF this a] have c: "\<not> isspace (CHR ''('')"
    by simp
  have b: "\<forall>c \<in> set ''  ''. isspace c"
    by (simp add: s)
  have "(\<forall>c \<in> set ''  ''. isspace c) \<longrightarrow>
      tokenize ''  '' = [] \<and> parse (init False) ''  '' = Some [] \<and> is_valid (init False) ''  '' = Some False"
    using tokens_nonempty_no_space[of "''  ''" False] by (rule conjunct2)
  from mp[OF this b] have d: "tokenize ''  '' = [] \<and> parse (init False) ''  '' = Some [] \<and>
      is_valid (init False) ''  '' = Some False" .
  from a have a': "''('' \<in> set (tokenize ''(C E G)whole'') \<and> ''('' \<noteq> []"
    by simp
  from a' c s d show ?thesis
    by (intro conjI) (elim conjE, assumption)+
qed

end
